theory Spec2Isabelle
  imports Complex_Main
begin

section \<open>Python values\<close>

text \<open>
  The module \<^verbatim>\<open>model_utils.py\<close> receives a loosely typed patient record: a dict from
  field names to Python values. A float is modelled by the number it denotes (every finite
  double is a rational), with the two infinities and NaN apart. Python compares an int
  with a float by their exact values, so the rational of an int is the int itself.
\<close>

datatype pyfloat = Finite rat | PInf | MInf | NaN

text \<open>A number literal of the source: an int (\<^verbatim>\<open>18\<close>) or a float (\<^verbatim>\<open>2.0\<close>).\<close>

datatype number = Integer int | Float pyfloat

datatype pyval =
    PyNone
  | PyBool bool
  | PyNum number
  | PyStr string
  | PyList "pyval list"
  | PyDict "string \<Rightarrow> pyval option"

text \<open>
  The exceptions the module can meet. All of them are subclasses of \<^verbatim>\<open>Exception\<close>,
  which is what the handlers of the module (\<^verbatim>\<open>except Exception\<close>) catch.
  \<^verbatim>\<open>KeyboardInterrupt\<close> and \<^verbatim>\<open>SystemExit\<close>, which reach a computation from outside,
  are not modelled. \<open>OtherError\<close> carries the message of any other exception, such as
  one raised inside the classifier or the unpickler.
\<close>

datatype exn =
    AttributeError string
  | KeyError string
  | IndexError string
  | FileNotFoundError string
  | ValueError string
  | RuntimeError string
  | OtherError string

definition quoted :: "string \<Rightarrow> string" where
  "quoted s = [CHR 0x27] @ s @ [CHR 0x27]"

text \<open>\<^verbatim>\<open>str(e)\<close>: the message, and for a \<^verbatim>\<open>KeyError\<close> the repr of the key.\<close>

fun exn_str :: "exn \<Rightarrow> string" where
  "exn_str (AttributeError m) = m"
| "exn_str (KeyError k) = quoted k"
| "exn_str (IndexError m) = m"
| "exn_str (FileNotFoundError m) = m"
| "exn_str (ValueError m) = m"
| "exn_str (RuntimeError m) = m"
| "exn_str (OtherError m) = m"

subsection \<open>Numbers: isinstance, comparison, equality\<close>

text \<open>
  \<^verbatim>\<open>isinstance(value, (int, float))\<close> holds for ints, floats and, \<^verbatim>\<open>bool\<close> being a
  subclass of \<^verbatim>\<open>int\<close>, for \<^verbatim>\<open>True\<close> and \<^verbatim>\<open>False\<close>. \<open>num_value\<close> gives the number
  such a value is compared by, and \<open>None\<close> for every other value.
\<close>

fun number_value :: "number \<Rightarrow> pyfloat" where
  "number_value (Integer i) = Finite (of_int i)"
| "number_value (Float x) = x"

fun num_value :: "pyval \<Rightarrow> pyfloat option" where
  "num_value (PyBool b) = Some (Finite (if b then 1 else 0))"
| "num_value (PyNum n) = Some (number_value n)"
| "num_value PyNone = None"
| "num_value (PyStr s) = None"
| "num_value (PyList xs) = None"
| "num_value (PyDict d) = None"

text \<open>\<^verbatim>\<open>a < b\<close> on numbers: false whenever NaN is involved.\<close>

fun float_lt :: "pyfloat \<Rightarrow> pyfloat \<Rightarrow> bool" where
  "float_lt NaN y = False"
| "float_lt x NaN = False"
| "float_lt (Finite a) (Finite b) = (a < b)"
| "float_lt (Finite a) PInf = True"
| "float_lt (Finite a) MInf = False"
| "float_lt PInf y = False"
| "float_lt MInf (Finite b) = True"
| "float_lt MInf PInf = True"
| "float_lt MInf MInf = False"

text \<open>\<^verbatim>\<open>a == b\<close> on numbers: NaN equals nothing.\<close>

fun float_eq :: "pyfloat \<Rightarrow> pyfloat \<Rightarrow> bool" where
  "float_eq NaN y = False"
| "float_eq x NaN = False"
| "float_eq x y = (x = y)"

text \<open>
  \<^verbatim>\<open>value == n\<close> for an int literal \<open>n\<close>: numeric equality for a number (so
  \<^verbatim>\<open>1.0 == 1\<close> and \<^verbatim>\<open>True == 1\<close> hold), false for every other builtin value.
  \<^verbatim>\<open>value == 's'\<close> for a str literal: true for that very string only.
\<close>

definition eq_int :: "pyval \<Rightarrow> int \<Rightarrow> bool" where
  "eq_int v n = (case num_value v of None \<Rightarrow> False | Some x \<Rightarrow> float_eq x (Finite (of_int n)))"

fun eq_str :: "pyval \<Rightarrow> string \<Rightarrow> bool" where
  "eq_str (PyStr s) t = (s = t)"
| "eq_str v t = False"

subsection \<open>Formatting\<close>

definition digit_char :: "nat \<Rightarrow> char" where
  "digit_char n = ''0123456789'' ! n"

fun str_nat :: "nat \<Rightarrow> string" where
  "str_nat n = (if n < 10 then [digit_char n] else str_nat (n div 10) @ [digit_char (n mod 10)])"

declare str_nat.simps [simp del]

definition str_int :: "int \<Rightarrow> string" where
  "str_int i = (if i < 0 then CHR ''-'' # str_nat (nat (- i)) else str_nat (nat i))"

text \<open>The double nearest to 3/10, which is what the literal \<^verbatim>\<open>0.3\<close> denotes.\<close>

definition double_0_3 :: rat where
  "double_0_3 = 5404319552844595 / 18014398509481984"

text \<open>
  \<^verbatim>\<open>str\<close> of a float is the shortest decimal numeral that reads back as the same double.
  The module formats only the bounds of its range table, so the numeral is given for
  whole numbers below \<open>10^16\<close> (where Python switches to exponents), for one half and for
  the double nearest 3/10. No other float is ever formatted by this module; for those the
  model has a placeholder.
\<close>

definition str_float :: "pyfloat \<Rightarrow> string" where
  "str_float x =
     (case x of
        NaN \<Rightarrow> ''nan''
      | PInf \<Rightarrow> ''inf''
      | MInf \<Rightarrow> ''-inf''
      | Finite q \<Rightarrow>
          (if q = of_int \<lfloor>q\<rfloor> \<and> \<bar>q\<bar> < 10 ^ 16 then str_int \<lfloor>q\<rfloor> @ ''.0''
           else if q = 1 / 2 then ''0.5''
           else if q = double_0_3 then ''0.3''
           else ''<float>''))"

fun str_number :: "number \<Rightarrow> string" where
  "str_number (Integer i) = str_int i"
| "str_number (Float x) = str_float x"

text \<open>\<^verbatim>\<open>sep.join(xs)\<close>\<close>

fun join :: "string \<Rightarrow> string list \<Rightarrow> string" where
  "join sep [] = []"
| "join sep [x] = x"
| "join sep (x # y # ys) = x @ sep @ join sep (y # ys)"

fun type_name :: "pyval \<Rightarrow> string" where
  "type_name PyNone = ''NoneType''"
| "type_name (PyBool b) = ''bool''"
| "type_name (PyNum (Integer i)) = ''int''"
| "type_name (PyNum (Float x)) = ''float''"
| "type_name (PyStr s) = ''str''"
| "type_name (PyList xs) = ''list''"
| "type_name (PyDict d) = ''dict''"

text \<open>
  \<^verbatim>\<open>patient_data.keys()\<close>: only a dict has the method; on any other value the
  attribute access raises. The result is the dict whose keys are read.
\<close>

fun py_keys :: "pyval \<Rightarrow> exn + (string \<Rightarrow> pyval option)" where
  "py_keys (PyDict d) = Inr d"
| "py_keys v = Inl (AttributeError (quoted (type_name v) @ '' object has no attribute '' @ quoted ''keys''))"

text \<open>\<^verbatim>\<open>patient_data[field]\<close> on a dict.\<close>

definition getitem :: "(string \<Rightarrow> pyval option) \<Rightarrow> string \<Rightarrow> exn + pyval" where
  "getitem d k = (case d k of None \<Rightarrow> Inl (KeyError k) | Some v \<Rightarrow> Inr v)"

section \<open>The feature catalogue\<close>

text \<open>\<^verbatim>\<open>get_feature_ranges\<close>: a dict literal, iterated in the order it is written.\<close>

definition get_feature_ranges :: "(string \<times> number \<times> number) list" where
  "get_feature_ranges =
     [(''Age'', Integer 18, Integer 90),
      (''Albumin'', Float (Finite 2), Float (Finite 6)),
      (''Bilirubin'', Float (Finite double_0_3), Float (Finite 10)),
      (''ALT'', Integer 7, Integer 2000),
      (''AST'', Integer 10, Integer 2000),
      (''ALP'', Integer 44, Integer 500),
      (''INR'', Float (Finite (1 / 2)), Float (Finite 5)),
      (''Platelets'', Integer 20, Integer 500),
      (''Sodium'', Integer 125, Integer 145),
      (''Creatinine'', Float (Finite (1 / 2)), Float (Finite 4))]"

section \<open>Validation\<close>

definition required_fields :: "string set" where
  "required_fields =
     {''Age'', ''Sex'', ''Albumin'', ''Bilirubin'', ''ALT'', ''AST'', ''ALP'',
      ''INR'', ''Platelets'', ''Sodium'', ''Creatinine'', ''Ascites'',
      ''Hepatomegaly'', ''Spiders'', ''Edema''}"

definition boolean_fields :: "string list" where
  "boolean_fields = [''Ascites'', ''Hepatomegaly'', ''Spiders'', ''Edema'']"

text \<open>
  The loop over the range table (lines 51 to 57). \<open>Inr (Some r)\<close> is an early
  \<^verbatim>\<open>return r\<close>, \<open>Inr None\<close> is the loop running to its end.
\<close>

fun range_loop ::
  "(string \<Rightarrow> pyval option) \<Rightarrow> (string \<times> number \<times> number) list \<Rightarrow> exn + (bool \<times> string) option"
where
  "range_loop d [] = Inr None"
| "range_loop d ((field, min_val, max_val) # rest) =
     (case d field of
        None \<Rightarrow> range_loop d rest
      | Some v \<Rightarrow>
          (case num_value v of
             None \<Rightarrow> Inr (Some (False, field @ '' must be a number''))
           | Some x \<Rightarrow>
               if float_lt x (number_value min_val) \<or> float_lt (number_value max_val) x
               then Inr (Some (False, field @ '' must be between '' @ str_number min_val
                                        @ '' and '' @ str_number max_val))
               else range_loop d rest))"

text \<open>The loop over the boolean fields (lines 63 to 65).\<close>

fun boolean_loop ::
  "(string \<Rightarrow> pyval option) \<Rightarrow> string list \<Rightarrow> exn + (bool \<times> string) option"
where
  "boolean_loop d [] = Inr None"
| "boolean_loop d (field # rest) =
     (case getitem d field of
        Inl e \<Rightarrow> Inl e
      | Inr v \<Rightarrow>
          if \<not> list_ex (eq_int v) [0, 1]
          then Inr (Some (False, field @ '' must be 0 or 1''))
          else boolean_loop d rest)"

text \<open>
  The iteration order of the set \<open>missing_fields\<close> is not fixed by the language. It
  depends on the hash seed of the process and on the way the difference
  \<^verbatim>\<open>required_fields - set(patient_data.keys())\<close> is computed (by copying and discarding,
  or by rebuilding), which the keys of the record decide. So two records that miss the
  same names may have them listed in different orders. The order is the parameter
  \<open>set_order\<close>: given the keys of the record and the difference set, it is the list in
  which the elements of the difference are met.
\<close>

type_synonym set_order = "string set \<Rightarrow> string set \<Rightarrow> string list"

text \<open>The body of the \<^verbatim>\<open>try\<close> block (lines 40 to 67).\<close>

definition validate_try :: "set_order \<Rightarrow> pyval \<Rightarrow> exn + (bool \<times> string)" where
  "validate_try set_order patient_data =
     (case py_keys patient_data of
        Inl e \<Rightarrow> Inl e
      | Inr d \<Rightarrow>
          let missing_fields = required_fields - dom d in
          if missing_fields \<noteq> {}
          then Inr (False, ''Missing required fields: ''
                             @ join '', '' (set_order (dom d) missing_fields))
          else
            (case range_loop d get_feature_ranges of
               Inl e \<Rightarrow> Inl e
             | Inr (Some r) \<Rightarrow> Inr r
             | Inr None \<Rightarrow>
                 (case getitem d ''Sex'' of
                    Inl e \<Rightarrow> Inl e
                  | Inr sex \<Rightarrow>
                      if \<not> list_ex (eq_str sex) [''M'', ''F'']
                      then Inr (False, ''Sex must be either '' @ quoted ''M'' @ '' or '' @ quoted ''F'')
                      else
                        (case boolean_loop d boolean_fields of
                           Inl e \<Rightarrow> Inl e
                         | Inr (Some r) \<Rightarrow> Inr r
                         | Inr None \<Rightarrow> Inr (True, '''')))))"

text \<open>
  \<^verbatim>\<open>validate_input_data\<close>: the \<^verbatim>\<open>try\<close> block under its handler
  \<^verbatim>\<open>except Exception as e: return False, f"Validation error: {str(e)}"\<close>.
\<close>

definition validate_input_data :: "set_order \<Rightarrow> pyval \<Rightarrow> exn + (bool \<times> string)" where
  "validate_input_data set_order patient_data =
     (case validate_try set_order patient_data of
        Inl e \<Rightarrow> Inr (False, ''Validation error: '' @ exn_str e)
      | Inr r \<Rightarrow> Inr r)"

section \<open>The classifier, the model file and the process\<close>

text \<open>
  The trained classifier is opaque: what the module uses of it is \<^verbatim>\<open>predict\<close>,
  \<^verbatim>\<open>predict_proba\<close> (each may raise) and the attribute \<^verbatim>\<open>classes_\<close>. Labels have
  any type \<open>'l\<close>; probabilities are floats. The frame \<^verbatim>\<open>pd.DataFrame([patient_data])\<close>
  is the one-row list of the record.
\<close>

record 'l classifier =
  predict :: "pyval list \<Rightarrow> exn + 'l list"
  predict_proba :: "pyval list \<Rightarrow> exn + pyfloat list list"
  classes :: "'l list"

text \<open>
  The file at \<^verbatim>\<open>model_path\<close>: absent, or present, and then \<^verbatim>\<open>joblib.load\<close> either
  raises or gives the pickled classifier.
\<close>

datatype 'l model_file = Absent | Present "exn + 'l classifier"

text \<open>The calls that leave the module, in the order they are made.\<close>

datatype event =
    Call_load_model
  | Path_exists
  | Joblib_load
  | St_error string
  | Call_predict
  | Call_predict_proba

text \<open>
  The state of the process: the cache slot of \<^verbatim>\<open>load_model\<close> (empty, or the value the
  function returned, which may be \<^verbatim>\<open>None\<close>) and the trace of the outside calls.
\<close>

record 'l world =
  cache :: "'l classifier option option"
  trace :: "event list"

definition emit :: "event \<Rightarrow> 'l world \<Rightarrow> 'l world" where
  "emit e w = w\<lparr>trace := trace w @ [e]\<rparr>"

definition fresh :: "'l world" where
  "fresh = \<lparr>cache = None, trace = []\<rparr>"

text \<open>The \<^verbatim>\<open>try\<close> block of \<^verbatim>\<open>load_model\<close> (lines 19 to 24).\<close>

definition load_model_try ::
  "string \<Rightarrow> 'l model_file \<Rightarrow> 'l world \<Rightarrow> (exn + 'l classifier) \<times> 'l world" where
  "load_model_try model_path file w =
     (let w1 = emit Path_exists w in
      case file of
        Absent \<Rightarrow> (Inl (FileNotFoundError (''Model file not found at '' @ model_path)), w1)
      | Present loaded \<Rightarrow> (loaded, emit Joblib_load w1))"

text \<open>
  The undecorated function: the \<^verbatim>\<open>try\<close> block under its handler, which shows the error
  with \<^verbatim>\<open>st.error\<close> and returns \<^verbatim>\<open>None\<close>.
\<close>

definition load_model_body ::
  "string \<Rightarrow> 'l model_file \<Rightarrow> 'l world \<Rightarrow> 'l classifier option \<times> 'l world" where
  "load_model_body model_path file w =
     (case load_model_try model_path file w of
        (Inl e, w1) \<Rightarrow> (None, emit (St_error (''Error loading model: '' @ exn_str e)) w1)
      | (Inr model, w1) \<Rightarrow> (Some model, w1))"

text \<open>
  Modelled from the spec: the decorator \<^verbatim>\<open>st.cache_resource\<close> belongs to the streamlit
  library and is not part of the sources. The spec says of the loader that its result
  is memoized for the lifetime of the process and that the underlying deserialization
  executes at most once per process however often the loader is invoked. So the decorated
  function returns the stored value when the slot is filled, and otherwise runs the
  function and stores what it returned.
\<close>

definition cache_resource ::
  "('l world \<Rightarrow> 'l classifier option \<times> 'l world) \<Rightarrow> 'l world \<Rightarrow> 'l classifier option \<times> 'l world" where
  "cache_resource f w =
     (case cache w of
        Some stored \<Rightarrow> (stored, w)
      | None \<Rightarrow> (case f w of (r, w1) \<Rightarrow> (r, w1\<lparr>cache := Some r\<rparr>)))"

definition load_model ::
  "string \<Rightarrow> 'l model_file \<Rightarrow> 'l world \<Rightarrow> 'l classifier option \<times> 'l world" where
  "load_model model_path file w =
     cache_resource (load_model_body model_path file) (emit Call_load_model w)"

section \<open>Prediction\<close>

text \<open>\<^verbatim>\<open>xs[0]\<close> on what the classifier returned.\<close>

fun first :: "'a list \<Rightarrow> exn + 'a" where
  "first [] = Inl (IndexError ''index 0 is out of bounds for axis 0 with size 0'')"
| "first (x # xs) = Inr x"

text \<open>
  The dict comprehension over \<^verbatim>\<open>zip(stage_names, probabilities)\<close>: pairs are stored in
  order, a later pair replacing an earlier one with the same key.
\<close>

definition prob_dict_of :: "('l \<times> pyfloat) list \<Rightarrow> ('l \<Rightarrow> pyfloat option)" where
  "prob_dict_of pairs = fold (\<lambda>(stage, prob) m. m(stage \<mapsto> prob)) pairs Map.empty"

text \<open>The \<^verbatim>\<open>try\<close> block of \<^verbatim>\<open>predict_liver_disease\<close> (lines 94 to 99).\<close>

definition predict_try ::
  "'l classifier \<Rightarrow> pyval \<Rightarrow> 'l world \<Rightarrow> (exn + 'l \<times> ('l \<Rightarrow> pyfloat option)) \<times> 'l world" where
  "predict_try model patient_data w =
     (let df = [patient_data]; w1 = emit Call_predict w in
      case predict model df of
        Inl e \<Rightarrow> (Inl e, w1)
      | Inr stages \<Rightarrow>
          (case first stages of
             Inl e \<Rightarrow> (Inl e, w1)
           | Inr predicted_stage \<Rightarrow>
               (let w2 = emit Call_predict_proba w1 in
                case predict_proba model df of
                  Inl e \<Rightarrow> (Inl e, w2)
                | Inr rows \<Rightarrow>
                    (case first rows of
                       Inl e \<Rightarrow> (Inl e, w2)
                     | Inr probabilities \<Rightarrow>
                         (let stage_names = classes model;
                              prob_dict = prob_dict_of (zip stage_names probabilities)
                          in (Inr (predicted_stage, prob_dict), w2))))))"

definition predict_liver_disease ::
  "set_order \<Rightarrow> string \<Rightarrow> 'l model_file \<Rightarrow> pyval \<Rightarrow> 'l world
     \<Rightarrow> (exn + 'l \<times> ('l \<Rightarrow> pyfloat option)) \<times> 'l world" where
  "predict_liver_disease set_order model_path file patient_data w =
     (case validate_input_data set_order patient_data of
        Inl e \<Rightarrow> (Inl e, w)
      | Inr (is_valid, error_message) \<Rightarrow>
          if \<not> is_valid then (Inl (ValueError error_message), w)
          else
            (case load_model model_path file w of
               (None, w1) \<Rightarrow> (Inl (RuntimeError ''Failed to load model''), w1)
             | (Some model, w1) \<Rightarrow>
                 (case predict_try model patient_data w1 of
                    (Inl e, w2) \<Rightarrow> (Inl (RuntimeError (''Prediction error: '' @ exn_str e)), w2)
                  | (Inr result, w2) \<Rightarrow> (Inr result, w2))))"

section \<open>Notions used in the statements\<close>

text \<open>One entry of the range table lets a record pass: the field is absent, or a number
  that is neither below the minimum nor above the maximum.\<close>

definition field_ok :: "(string \<Rightarrow> pyval option) \<Rightarrow> string \<times> number \<times> number \<Rightarrow> bool" where
  "field_ok d entry =
     (case entry of (field, min_val, max_val) \<Rightarrow>
        (case d field of
           None \<Rightarrow> True
         | Some v \<Rightarrow>
             (case num_value v of
                None \<Rightarrow> False
              | Some x \<Rightarrow> \<not> float_lt x (number_value min_val) \<and> \<not> float_lt (number_value max_val) x)))"

text \<open>The builtin values that compare equal to \<^verbatim>\<open>0\<close> or to \<^verbatim>\<open>1\<close>.\<close>

definition accepted_booleans :: "pyval set" where
  "accepted_booleans =
     {PyNum (Integer 0), PyNum (Integer 1), PyNum (Float (Finite 0)), PyNum (Float (Finite 1)),
      PyBool False, PyBool True}"

definition rejected :: "(string \<Rightarrow> pyval option) \<Rightarrow> string \<Rightarrow> bool" where
  "rejected d field = (case d field of None \<Rightarrow> False | Some v \<Rightarrow> v \<notin> accepted_booleans)"

text \<open>
  \<^verbatim>\<open>n + k\<close> for an int \<open>k\<close>, as the exact sum. (Python rounds a float sum to the nearest
  double; the statements below that use such a sum also cover every other number on the
  same side of the bound.)
\<close>

fun number_plus :: "number \<Rightarrow> int \<Rightarrow> number" where
  "number_plus (Integer i) k = Integer (i + k)"
| "number_plus (Float (Finite q)) k = Float (Finite (q + of_int k))"
| "number_plus (Float x) k = Float x"

text \<open>The closed range of the data model: \<open>min \<le> v \<le> max\<close> for a number \<open>v\<close>.\<close>

definition float_le :: "pyfloat \<Rightarrow> pyfloat \<Rightarrow> bool" where
  "float_le x y = (float_lt x y \<or> float_eq x y)"

definition in_closed_range :: "pyval \<Rightarrow> number \<Rightarrow> number \<Rightarrow> bool" where
  "in_closed_range v min_val max_val =
     (case num_value v of
        None \<Rightarrow> False
      | Some x \<Rightarrow> float_le (number_value min_val) x \<and> float_le x (number_value max_val))"

text \<open>
  The invariant of a patient record in the data model, on the fifteen fields only:
  every ranged field holds a number within its closed range, Sex is one of the two codes,
  and each boolean field is the integer 0 or 1.
\<close>

definition valid_values :: "(string \<Rightarrow> pyval option) \<Rightarrow> bool" where
  "valid_values d =
     (list_all (\<lambda>(field, min_val, max_val).
                  case d field of None \<Rightarrow> False | Some v \<Rightarrow> in_closed_range v min_val max_val)
        get_feature_ranges
      \<and> (d ''Sex'' = Some (PyStr ''M'') \<or> d ''Sex'' = Some (PyStr ''F''))
      \<and> list_all (\<lambda>field. d field = Some (PyNum (Integer 0)) \<or> d field = Some (PyNum (Integer 1)))
           boolean_fields)"

text \<open>The load cannot succeed: the file is absent, or \<^verbatim>\<open>joblib.load\<close> raises.\<close>

fun load_fails :: "'l model_file \<Rightarrow> bool" where
  "load_fails Absent = True"
| "load_fails (Present (Inl e)) = True"
| "load_fails (Present (Inr model)) = False"

text \<open>No classifier is held by the cache: the slot is empty or holds \<^verbatim>\<open>None\<close>.\<close>

fun no_model_cached :: "'l world \<Rightarrow> bool" where
  "no_model_cached w = (case cache w of Some (Some model) \<Rightarrow> False | _ \<Rightarrow> True)"

text \<open>
  \<^verbatim>\<open>load_model()\<close> called once for each element of a list, each call finding the model
  file in the state the element gives; the results of the calls, in order.
\<close>

fun load_many ::
  "string \<Rightarrow> 'l model_file list \<Rightarrow> 'l world \<Rightarrow> 'l classifier option list \<times> 'l world" where
  "load_many model_path [] w = ([], w)"
| "load_many model_path (file # files) w =
     (case load_model model_path file w of
        (r, w1) \<Rightarrow> (case load_many model_path files w1 of (rs, w2) \<Rightarrow> (r # rs, w2)))"

section \<open>Sample data\<close>

text \<open>A list lists a set when it names each element of the set once and nothing else.\<close>

definition lists_set :: "string list \<Rightarrow> string set \<Rightarrow> bool" where
  "lists_set names S = (set names = S \<and> distinct names)"

text \<open>
  One iteration order among the possible ones: that of the set literal in the source,
  whatever the keys of the record.
\<close>

definition literal_order :: set_order where
  "literal_order ks S =
     filter (\<lambda>f. f \<in> S)
       [''Age'', ''Sex'', ''Albumin'', ''Bilirubin'', ''ALT'', ''AST'', ''ALP'',
        ''INR'', ''Platelets'', ''Sodium'', ''Creatinine'', ''Ascites'',
        ''Hepatomegaly'', ''Spiders'', ''Edema'']"

text \<open>A record with the fifteen fields, every value acceptable.\<close>

definition sample_record :: "string \<Rightarrow> pyval option" where
  "sample_record =
     [''Age'' \<mapsto> PyNum (Integer 50), ''Sex'' \<mapsto> PyStr ''M'',
      ''Albumin'' \<mapsto> PyNum (Float (Finite 4)), ''Bilirubin'' \<mapsto> PyNum (Float (Finite 1)),
      ''ALT'' \<mapsto> PyNum (Integer 30), ''AST'' \<mapsto> PyNum (Integer 30),
      ''ALP'' \<mapsto> PyNum (Integer 100), ''INR'' \<mapsto> PyNum (Float (Finite 1)),
      ''Platelets'' \<mapsto> PyNum (Integer 250), ''Sodium'' \<mapsto> PyNum (Integer 140),
      ''Creatinine'' \<mapsto> PyNum (Float (Finite 1)), ''Ascites'' \<mapsto> PyNum (Integer 0),
      ''Hepatomegaly'' \<mapsto> PyNum (Integer 1), ''Spiders'' \<mapsto> PyNum (Integer 0),
      ''Edema'' \<mapsto> PyNum (Integer 1)]"

text \<open>
  The stub classifier of the spec: classes Stage1, Stage2, Stage3 with the probabilities
  0.2, 0.3 and 0.5 (as the doubles these literals denote), predicting Stage3.
\<close>

definition double_0_2 :: rat where
  "double_0_2 = 3602879701896397 / 18014398509481984"

definition stub_classifier :: "string classifier" where
  "stub_classifier =
     \<lparr>predict = (\<lambda>df. Inr [''Stage3'']),
      predict_proba = (\<lambda>df. Inr [[Finite double_0_2, Finite double_0_3, Finite (1 / 2)]]),
      classes = [''Stage1'', ''Stage2'', ''Stage3'']\<rparr>"

section \<open>Facts about validation\<close>

text \<open>Fifteen required fields, ten of them ranged.\<close>

lemma required_fields_card: "card required_fields = 15"
  by (simp add: required_fields_def)

lemma get_feature_ranges_length: "length get_feature_ranges = 10"
  by (simp add: get_feature_ranges_def)

lemma range_loop_no_raise: "range_loop d rs \<noteq> Inl e"
  by (induction d rs rule: range_loop.induct) (auto split: option.splits)

lemma range_loop_rejects: "range_loop d rs = Inr (Some r) \<Longrightarrow> fst r = False"
  by (induction d rs rule: range_loop.induct) (auto split: option.splits if_splits)

lemma range_loop_None_iff: "range_loop d rs = Inr None \<longleftrightarrow> list_all (field_ok d) rs"
  by (induction d rs rule: range_loop.induct) (auto simp: field_ok_def split: option.splits)

lemma eq_str_iff: "eq_str v s \<longleftrightarrow> v = PyStr s"
  by (cases v) auto

lemma float_eq_Finite: "float_eq x (Finite q) \<longleftrightarrow> x = Finite q"
  by (cases x) auto

lemma in_0_1_iff: "list_ex (eq_int v) [0, 1] \<longleftrightarrow> v \<in> accepted_booleans"
proof (cases v)
  case (PyNum n)
  then show ?thesis
    by (cases n) (auto simp: eq_int_def float_eq_Finite accepted_booleans_def)
qed (auto simp: eq_int_def float_eq_Finite accepted_booleans_def)

lemma in_M_F_iff: "list_ex (eq_str v) [''M'', ''F''] \<longleftrightarrow> v = PyStr ''M'' \<or> v = PyStr ''F''"
  by (auto simp: eq_str_iff)

lemma boolean_loop_find:
  "set fs \<subseteq> dom d \<Longrightarrow>
   boolean_loop d fs =
     (case find (rejected d) fs of
        None \<Rightarrow> Inr None
      | Some f \<Rightarrow> Inr (Some (False, f @ '' must be 0 or 1'')))"
proof (induction fs)
  case Nil
  show ?case by simp
next
  case (Cons f fs)
  then obtain v where v: "d f = Some v" by auto
  from Cons have IH: "boolean_loop d fs =
     (case find (rejected d) fs of None \<Rightarrow> Inr None | Some f \<Rightarrow> Inr (Some (False, f @ '' must be 0 or 1'')))"
    by simp
  have rej: "rejected d f \<longleftrightarrow> v \<notin> accepted_booleans"
    using v by (simp add: rejected_def)
  show ?case
    using v IH by (simp add: getitem_def in_0_1_iff rej del: list_ex_Cons_iff list_ex_Nil_iff)
qed

lemma boolean_subset: "set boolean_fields \<subseteq> required_fields"
  by (simp add: boolean_fields_def required_fields_def)

lemma sex_required: "''Sex'' \<in> required_fields"
  by (simp add: required_fields_def)

lemma validate_dict:
  assumes "required_fields \<subseteq> dom d"
  shows "validate_input_data so (PyDict d) =
     (case range_loop d get_feature_ranges of
        Inl e \<Rightarrow> Inr (False, ''Validation error: '' @ exn_str e)
      | Inr (Some r) \<Rightarrow> Inr r
      | Inr None \<Rightarrow>
          (if d ''Sex'' \<noteq> Some (PyStr ''M'') \<and> d ''Sex'' \<noteq> Some (PyStr ''F'')
           then Inr (False, ''Sex must be either '' @ quoted ''M'' @ '' or '' @ quoted ''F'')
           else (case find (rejected d) boolean_fields of
                   None \<Rightarrow> Inr (True, '''')
                 | Some f \<Rightarrow> Inr (False, f @ '' must be 0 or 1''))))"
proof -
  from assms have miss: "required_fields - dom d = {}" by auto
  from assms sex_required obtain sex where sex: "d ''Sex'' = Some sex" by blast
  from assms boolean_subset have "set boolean_fields \<subseteq> dom d" by blast
  note bl = boolean_loop_find [OF this]
  consider (ret) r where "range_loop d get_feature_ranges = Inr (Some r)"
    | (go) "range_loop d get_feature_ranges = Inr None"
  proof (cases "range_loop d get_feature_ranges")
    case (Inl e)
    then show ?thesis by (simp add: range_loop_no_raise)
  next
    case (Inr b)
    with that show ?thesis by (cases b) auto
  qed
  then show ?thesis
  proof cases
    case ret
    then show ?thesis
      unfolding validate_input_data_def validate_try_def by (simp add: miss)
  next
    case go
    show ?thesis
      unfolding validate_input_data_def validate_try_def
      by (cases "find (rejected d) boolean_fields")
         (simp_all add: miss go sex getitem_def in_M_F_iff bl
            del: list_ex_Cons_iff list_ex_Nil_iff)
  qed
qed

lemma validate_missing:
  assumes "\<not> required_fields \<subseteq> dom d"
  shows "validate_input_data so (PyDict d) =
           Inr (False, ''Missing required fields: ''
                         @ join '', '' (so (dom d) (required_fields - dom d)))"
proof -
  from assms have "required_fields - dom d \<noteq> {}" by auto
  then show ?thesis
    unfolding validate_input_data_def validate_try_def by simp
qed

lemma validate_not_dict:
  assumes "\<And>d. x \<noteq> PyDict d"
  shows "validate_input_data so x =
           Inr (False, ''Validation error: '' @ quoted (type_name x) @ '' object has no attribute '' @ quoted ''keys'')"
proof (cases x)
  case (PyDict d)
  with assms show ?thesis by blast
qed (simp_all add: validate_input_data_def validate_try_def)

lemma validate_True_iff:
  "validate_input_data so (PyDict d) = Inr (True, m) \<longleftrightarrow>
     m = '''' \<and> required_fields \<subseteq> dom d \<and> list_all (field_ok d) get_feature_ranges
     \<and> (d ''Sex'' = Some (PyStr ''M'') \<or> d ''Sex'' = Some (PyStr ''F''))
     \<and> find (rejected d) boolean_fields = None"
proof (cases "required_fields \<subseteq> dom d")
  case False
  then show ?thesis by (simp add: validate_missing)
next
  case True
  show ?thesis
  proof (cases "range_loop d get_feature_ranges")
    case (Inl e)
    then show ?thesis by (simp add: range_loop_no_raise)
  next
    case (Inr b)
    show ?thesis
    proof (cases b)
      case None
      with Inr have "list_all (field_ok d) get_feature_ranges"
        by (simp add: range_loop_None_iff)
      with None Inr True show ?thesis
        by (cases "find (rejected d) boolean_fields") (auto simp: validate_dict)
    next
      case (Some r)
      with Inr have "fst r = False" "\<not> list_all (field_ok d) get_feature_ranges"
        using range_loop_rejects [of d get_feature_ranges r]
          range_loop_None_iff [of d get_feature_ranges] by auto
      with Some Inr True show ?thesis
        by (cases r) (auto simp: validate_dict)
    qed
  qed
qed

lemma sample_lookup:
  "sample_record ''Sex'' = Some (PyStr ''M'')"
  "sample_record ''Ascites'' = Some (PyNum (Integer 0))"
  "sample_record ''Hepatomegaly'' = Some (PyNum (Integer 1))"
  "sample_record ''Spiders'' = Some (PyNum (Integer 0))"
  "sample_record ''Edema'' = Some (PyNum (Integer 1))"
  by (simp_all add: sample_record_def)

lemma sample_dom: "dom sample_record = required_fields"
  by (auto simp add: sample_record_def required_fields_def)

lemma sample_ranges: "range_loop sample_record get_feature_ranges = Inr None"
  by (simp add: sample_record_def get_feature_ranges_def double_0_3_def)

lemma sample_valid: "validate_input_data so (PyDict sample_record) = Inr (True, '''')"
  by (simp add: validate_True_iff sample_dom sample_lookup rejected_def accepted_booleans_def
       boolean_fields_def sample_ranges [unfolded range_loop_None_iff])

section \<open>Validation never raises\<close>

text \<open>
  Claim C7. For every input, of any shape, and every iteration order of sets,
  \<^verbatim>\<open>validate_input_data\<close> returns a pair and raises nothing: whenever the body of the
  \<^verbatim>\<open>try\<close> block raises an exception \<open>e\<close>, the function returns \<^verbatim>\<open>False\<close> with the
  message \<^verbatim>\<open>Validation error:\<close> followed by \<^verbatim>\<open>str(e)\<close>.
\<close>

theorem validate_never_raises:
  "(\<exists>ok msg. validate_input_data so x = Inr (ok, msg))
   \<and> (\<forall>e. validate_try so x = Inl e \<longrightarrow>
          validate_input_data so x = Inr (False, ''Validation error: '' @ exn_str e))"
  unfolding validate_input_data_def
  by (cases "validate_try so x") auto

text \<open>The fault really occurs: \<^verbatim>\<open>None\<close> has no \<^verbatim>\<open>keys\<close>, and the handler reports it.\<close>

theorem validate_never_raises_witness:
  "validate_try literal_order PyNone
     = Inl (AttributeError (quoted ''NoneType'' @ '' object has no attribute '' @ quoted ''keys''))
   \<and> validate_input_data literal_order PyNone
     = Inr (False, ''Validation error: '' @ quoted ''NoneType'' @ '' object has no attribute '' @ quoted ''keys'')"
proof -
  have t: "validate_try literal_order PyNone
     = Inl (AttributeError (quoted ''NoneType'' @ '' object has no attribute '' @ quoted ''keys''))"
    by (simp add: validate_try_def)
  from validate_never_raises [of literal_order PyNone] t
  have "validate_input_data literal_order PyNone
     = Inr (False, ''Validation error: '' @ quoted ''NoneType'' @ '' object has no attribute '' @ quoted ''keys'')"
    by simp
  with t show ?thesis by simp
qed

section \<open>Missing fields\<close>

text \<open>
  Claim C3. For every record that lacks one or more of the fifteen required fields,
  and every iteration order that, for this record, lists the set of the missing names,
  \<^verbatim>\<open>validate_input_data\<close> returns \<^verbatim>\<open>False\<close> with the message
  \<^verbatim>\<open>Missing required fields:\<close> followed by the missing names joined by a comma and a
  blank, each missing name once and no other name. The check short-circuits: the result
  is the same for every record with the same keys, whatever its values are, so that no
  range, Sex or boolean check has a say.
\<close>

theorem missing_fields_listed:
  assumes "\<not> required_fields \<subseteq> dom d"
    and "lists_set (so (dom d) (required_fields - dom d)) (required_fields - dom d)"
  shows "validate_input_data so (PyDict d)
           = Inr (False, ''Missing required fields: ''
                           @ join '', '' (so (dom d) (required_fields - dom d)))
         \<and> set (so (dom d) (required_fields - dom d)) = required_fields - dom d
         \<and> distinct (so (dom d) (required_fields - dom d))
         \<and> (\<forall>d'. dom d' = dom d \<longrightarrow>
               validate_input_data so (PyDict d') = validate_input_data so (PyDict d))"
proof -
  have same: "validate_input_data so (PyDict d') = validate_input_data so (PyDict d)"
    if "dom d' = dom d" for d'
  proof -
    from that assms(1) have "\<not> required_fields \<subseteq> dom d'" by simp
    with assms(1) that show ?thesis by (simp add: validate_missing)
  qed
  with assms show ?thesis
    by (simp add: validate_missing lists_set_def)
qed

text \<open>A record without Age and Edema; a record with the same keys and other values.\<close>

theorem missing_fields_listed_witness:
  "validate_input_data literal_order (PyDict (sample_record(''Age'' := None, ''Edema'' := None)))
     = Inr (False, ''Missing required fields: Age, Edema'')
   \<and> validate_input_data literal_order
       (PyDict (sample_record(''Age'' := None, ''Edema'' := None, ''Sex'' \<mapsto> PyNone)))
     = Inr (False, ''Missing required fields: Age, Edema'')"
proof -
  let ?d = "sample_record(''Age'' := None, ''Edema'' := None)"
  let ?d' = "sample_record(''Age'' := None, ''Edema'' := None, ''Sex'' \<mapsto> PyNone)"
  have dom: "dom ?d = required_fields - {''Age'', ''Edema''}"
    by (auto simp: sample_dom)
  have miss: "required_fields - dom ?d = {''Age'', ''Edema''}"
    unfolding dom by (auto simp: required_fields_def)
  have order: "literal_order ks {''Age'', ''Edema''} = [''Age'', ''Edema'']" for ks
    by (simp add: literal_order_def)
  have h1: "\<not> required_fields \<subseteq> dom ?d"
    using miss by auto
  have h2: "lists_set (literal_order (dom ?d) (required_fields - dom ?d)) (required_fields - dom ?d)"
    unfolding miss by (simp add: order lists_set_def)
  have keys: "dom ?d' = dom ?d"
    unfolding dom by (auto simp: sample_dom required_fields_def)
  note listed = missing_fields_listed [of ?d literal_order, OF h1 h2, unfolded miss order]
  from listed have first: "validate_input_data literal_order (PyDict ?d)
     = Inr (False, ''Missing required fields: Age, Edema'')"
    by simp
  from listed keys have "validate_input_data literal_order (PyDict ?d')
     = validate_input_data literal_order (PyDict ?d)"
    by blast
  with first show ?thesis by simp
qed

section \<open>The Sex check\<close>

text \<open>
  Claim C8. For every record that has the fifteen required fields and passes the range
  loop: when its Sex value is not exactly the string \<^verbatim>\<open>M\<close> or the string \<^verbatim>\<open>F\<close>,
  \<^verbatim>\<open>validate_input_data\<close> returns \<^verbatim>\<open>False\<close> with the fixed message about Sex; when it
  is one of the two, the Sex check passes and the result is that of the boolean loop.
\<close>

theorem sex_check:
  assumes "required_fields \<subseteq> dom d"
    and "range_loop d get_feature_ranges = Inr None"
  shows "(d ''Sex'' \<noteq> Some (PyStr ''M'') \<and> d ''Sex'' \<noteq> Some (PyStr ''F'') \<longrightarrow>
            validate_input_data so (PyDict d)
              = Inr (False, ''Sex must be either '' @ quoted ''M'' @ '' or '' @ quoted ''F''))
         \<and> (d ''Sex'' = Some (PyStr ''M'') \<or> d ''Sex'' = Some (PyStr ''F'') \<longrightarrow>
            validate_input_data so (PyDict d)
              = (case find (rejected d) boolean_fields of
                   None \<Rightarrow> Inr (True, '''')
                 | Some f \<Rightarrow> Inr (False, f @ '' must be 0 or 1'')))"
  using assms by (simp add: validate_dict)

lemma sample_upd_dom: "f \<in> required_fields \<Longrightarrow> required_fields \<subseteq> dom (sample_record(f \<mapsto> v))"
  by (auto simp: sample_dom)

lemma range_loop_cong:
  "\<forall>e\<in>set rs. d' (fst e) = d (fst e) \<Longrightarrow> range_loop d' rs = range_loop d rs"
proof (induction d rs rule: range_loop.induct)
  case (1 d)
  show ?case by simp
next
  case (2 d field min_val max_val rest)
  have same: "d' field = d field" using 2(3) by simp
  have rest: "\<forall>e\<in>set rest. d' (fst e) = d (fst e)"
    using 2(3) by simp
  show ?case
  proof (cases "d field")
    case None
    with 2(1) rest same show ?thesis by simp
  next
    case (Some v)
    show ?thesis
    proof (cases "num_value v")
      case None
      with Some same show ?thesis by simp
    next
      case (Some x)
      with \<open>d field = Some v\<close> 2(2) rest same show ?thesis by simp
    qed
  qed
qed

lemma ranged_fields:
  "fst ` set get_feature_ranges =
     {''Age'', ''Albumin'', ''Bilirubin'', ''ALT'', ''AST'', ''ALP'', ''INR'', ''Platelets'',
      ''Sodium'', ''Creatinine''}"
  by (simp add: get_feature_ranges_def)

lemma range_loop_other:
  assumes "f \<notin> fst ` set get_feature_ranges"
  shows "range_loop (d(f := u)) get_feature_ranges = range_loop d get_feature_ranges"
  by (rule range_loop_cong) (use assms in auto)

text \<open>Lowercase \<^verbatim>\<open>m\<close> is refused with the fixed message; \<^verbatim>\<open>F\<close> passes.\<close>

theorem sex_check_witness:
  "validate_input_data literal_order (PyDict (sample_record(''Sex'' \<mapsto> PyStr ''m'')))
     = Inr (False, ''Sex must be either '' @ [CHR 0x27] @ ''M'' @ [CHR 0x27] @ '' or '' @ [CHR 0x27] @ ''F'' @ [CHR 0x27])
   \<and> validate_input_data literal_order (PyDict (sample_record(''Sex'' \<mapsto> PyStr ''F''))) = Inr (True, '''')"
proof -
  have r: "range_loop (sample_record(''Sex'' \<mapsto> v)) get_feature_ranges = Inr None" for v
    by (simp add: range_loop_other ranged_fields sample_ranges)
  have d: "required_fields \<subseteq> dom (sample_record(''Sex'' \<mapsto> v))" for v
    by (rule sample_upd_dom) (simp add: required_fields_def)
  have f: "find (rejected (sample_record(''Sex'' \<mapsto> v))) boolean_fields = None" for v
    by (simp add: boolean_fields_def rejected_def sample_lookup accepted_booleans_def)
  from sex_check [OF d r, of "PyStr ''m''" literal_order] sex_check [OF d r, of "PyStr ''F''" literal_order]
  show ?thesis by (simp add: f quoted_def)
qed

section \<open>The boolean check\<close>

lemma find_rejected_None:
  "find (rejected d) fs = None \<longleftrightarrow> (\<forall>f\<in>set fs. \<not> rejected d f)"
  by (auto simp: find_None_iff)

text \<open>
  Claim C1, as amended. For every record that passes the earlier checks (the fifteen
  fields present, the range loop passed, Sex one of the two codes),
  \<^verbatim>\<open>validate_input_data\<close> returns \<^verbatim>\<open>False\<close> with the message naming the first of
  Ascites, Hepatomegaly, Spiders, Edema whose value does not compare equal to 0 or 1, and
  accepts the record when each of the four compares equal to 0 or 1. The values that
  compare equal to 0 or 1 are the integers 0 and 1, the floats 0.0 and 1.0 and the
  booleans; so 2, -1 and the string \<^verbatim>\<open>"1"\<close> are refused, and the float 1.0 is accepted.
\<close>

theorem boolean_check:
  assumes "required_fields \<subseteq> dom d"
    and "range_loop d get_feature_ranges = Inr None"
    and "d ''Sex'' = Some (PyStr ''M'') \<or> d ''Sex'' = Some (PyStr ''F'')"
  shows "validate_input_data so (PyDict d)
           = (case find (rejected d) boolean_fields of
                None \<Rightarrow> Inr (True, '''')
              | Some f \<Rightarrow> Inr (False, f @ '' must be 0 or 1''))
         \<and> (find (rejected d) boolean_fields = None
              \<longleftrightarrow> (\<forall>f\<in>set boolean_fields. \<exists>v\<in>accepted_booleans. d f = Some v))"
proof -
  from assms(1) boolean_subset have "set boolean_fields \<subseteq> dom d" by blast
  then have "(\<forall>f\<in>set boolean_fields. \<not> rejected d f)
               \<longleftrightarrow> (\<forall>f\<in>set boolean_fields. \<exists>v\<in>accepted_booleans. d f = Some v)"
    by (auto simp: rejected_def split: option.splits)
  then have iff: "find (rejected d) boolean_fields = None
      \<longleftrightarrow> (\<forall>f\<in>set boolean_fields. \<exists>v\<in>accepted_booleans. d f = Some v)"
    by (simp only: find_rejected_None)
  from assms(3) have "validate_input_data so (PyDict d)
           = (case find (rejected d) boolean_fields of
                None \<Rightarrow> Inr (True, [])
              | Some f \<Rightarrow> Inr (False, f @ '' must be 0 or 1''))"
  proof
    assume "d ''Sex'' = Some (PyStr ''M'')"
    with assms(1,2) show ?thesis by (simp add: validate_dict)
  next
    assume "d ''Sex'' = Some (PyStr ''F'')"
    with assms(1,2) show ?thesis by (simp add: validate_dict)
  qed
  with iff show ?thesis by simp
qed

text \<open>The string \<^verbatim>\<open>"1"\<close>, 2 and -1 are refused, naming the field; 0 passes.\<close>

theorem boolean_check_witness:
  "validate_input_data literal_order (PyDict (sample_record(''Spiders'' \<mapsto> PyStr ''1'')))
     = Inr (False, ''Spiders must be 0 or 1'')
   \<and> validate_input_data literal_order (PyDict (sample_record(''Ascites'' \<mapsto> PyNum (Integer 2))))
     = Inr (False, ''Ascites must be 0 or 1'')
   \<and> validate_input_data literal_order (PyDict (sample_record(''Edema'' \<mapsto> PyNum (Integer (- 1)))))
     = Inr (False, ''Edema must be 0 or 1'')
   \<and> validate_input_data literal_order (PyDict (sample_record(''Hepatomegaly'' \<mapsto> PyNum (Integer 0))))
     = Inr (True, '''')"
proof -
  have r: "f \<in> set boolean_fields \<Longrightarrow>
      range_loop (sample_record(f \<mapsto> v)) get_feature_ranges = Inr None" for f v
    by (auto simp add: range_loop_other ranged_fields sample_ranges boolean_fields_def)
  have d: "f \<in> set boolean_fields \<Longrightarrow> required_fields \<subseteq> dom (sample_record(f \<mapsto> v))" for f v
    using boolean_subset by (intro sample_upd_dom) blast
  have s: "f \<in> set boolean_fields \<Longrightarrow>
      (sample_record(f \<mapsto> v)) ''Sex'' = Some (PyStr ''M'')
      \<or> (sample_record(f \<mapsto> v)) ''Sex'' = Some (PyStr ''F'')" for f v
    by (auto simp: boolean_fields_def sample_lookup)
  have b: "''Spiders'' \<in> set boolean_fields" "''Ascites'' \<in> set boolean_fields"
    "''Edema'' \<in> set boolean_fields" "''Hepatomegaly'' \<in> set boolean_fields"
    by (simp_all add: boolean_fields_def)
  have find:
    "find (rejected (sample_record(''Spiders'' \<mapsto> PyStr ''1''))) boolean_fields = Some ''Spiders''"
    "find (rejected (sample_record(''Ascites'' \<mapsto> PyNum (Integer 2)))) boolean_fields = Some ''Ascites''"
    "find (rejected (sample_record(''Edema'' \<mapsto> PyNum (Integer (- 1))))) boolean_fields = Some ''Edema''"
    "find (rejected (sample_record(''Hepatomegaly'' \<mapsto> PyNum (Integer 0)))) boolean_fields = None"
    by (simp_all add: boolean_fields_def rejected_def sample_lookup accepted_booleans_def)
  have step: "f \<in> set boolean_fields \<Longrightarrow>
      validate_input_data literal_order (PyDict (sample_record(f \<mapsto> v)))
        = (case find (rejected (sample_record(f \<mapsto> v))) boolean_fields of
             None \<Rightarrow> Inr (True, [])
           | Some g \<Rightarrow> Inr (False, g @ '' must be 0 or 1''))" for f v
    using boolean_check [of "sample_record(f \<mapsto> v)" literal_order] d r s by blast
  from step [OF b(1), of "PyStr ''1''"] step [OF b(2), of "PyNum (Integer 2)"]
    step [OF b(3), of "PyNum (Integer (- 1))"] step [OF b(4), of "PyNum (Integer 0)"]
  show ?thesis
    by (simp only: find option.case) simp
qed

text \<open>
  Claim C1 as stated fails: a record valid in every other field whose Ascites is the
  float 1.0 is accepted, where the claim has it rejected.
\<close>

theorem float_one_accepted:
  "validate_input_data literal_order (PyDict (sample_record(''Ascites'' \<mapsto> PyNum (Float (Finite 1)))))
     = Inr (True, '''')"
proof -
  let ?d = "sample_record(''Ascites'' \<mapsto> PyNum (Float (Finite 1)))"
  have "required_fields \<subseteq> dom ?d"
    by (rule sample_upd_dom) (simp add: required_fields_def)
  moreover have "list_all (field_ok ?d) get_feature_ranges"
    unfolding range_loop_None_iff [symmetric]
    by (simp add: range_loop_other ranged_fields sample_ranges)
  moreover have "find (rejected ?d) boolean_fields = None"
    by (simp add: boolean_fields_def rejected_def sample_lookup accepted_booleans_def)
  moreover have "?d ''Sex'' = Some (PyStr ''M'')"
    by (simp add: sample_lookup)
  ultimately show ?thesis
    by (simp only: validate_True_iff) simp
qed

section \<open>Range boundaries\<close>

lemma range_loop_update:
  assumes "list_all (field_ok d) rs" and "distinct (map fst rs)" and "(f, lo, hi) \<in> set rs"
    and at: "d' f = Some v" and other: "\<forall>k. k \<noteq> f \<longrightarrow> d' k = d k"
  shows "range_loop d' rs =
     (case num_value v of
        None \<Rightarrow> Inr (Some (False, f @ '' must be a number''))
      | Some x \<Rightarrow>
          if float_lt x (number_value lo) \<or> float_lt (number_value hi) x
          then Inr (Some (False, f @ '' must be between '' @ str_number lo @ '' and '' @ str_number hi))
          else Inr None)"
  using assms(1-3)
proof (induction rs)
  case Nil
  then show ?case by simp
next
  case (Cons e rs)
  obtain g l h where e: "e = (g, l, h)" by (cases e)
  show ?case
  proof (cases "g = f")
    case True
    with Cons.prems e have lh: "l = lo" "h = hi"
      by (auto simp: rev_image_eqI)
    from Cons.prems e True have "f \<notin> fst ` set rs" by simp
    with other have "\<forall>e\<in>set rs. d' (fst e) = d (fst e)"
      by (metis image_eqI)
    then have "range_loop d' rs = range_loop d rs"
      by (rule range_loop_cong)
    also from Cons.prems have "\<dots> = Inr None"
      by (simp add: range_loop_None_iff)
    finally show ?thesis
      using e True lh at by (simp split: option.splits)
  next
    case False
    with Cons.prems e have in_rs: "(f, lo, hi) \<in> set rs" by auto
    from Cons.prems have "list_all (field_ok d) rs" "distinct (map fst rs)" by auto
    note IH = Cons.IH [OF this in_rs]
    from Cons.prems e have ok: "field_ok d (g, l, h)" by simp
    from False other have same: "d' g = d g" by simp
    show ?thesis
    proof (cases "d g")
      case None
      with e same IH show ?thesis by simp
    next
      case (Some u)
      with ok obtain x where "num_value u = Some x"
        "\<not> float_lt x (number_value l)" "\<not> float_lt (number_value h) x"
        by (auto simp: field_ok_def split: option.splits)
      with Some e same IH show ?thesis by simp
    qed
  qed
qed

lemma ranges_distinct: "distinct (map fst get_feature_ranges)"
  by (simp add: get_feature_ranges_def)

lemma ranged_required: "fst ` set get_feature_ranges \<subseteq> required_fields"
  unfolding ranged_fields by (simp add: required_fields_def)

lemma ranged_not_sex: "''Sex'' \<notin> fst ` set get_feature_ranges"
  unfolding ranged_fields by simp

lemma ranged_not_boolean: "f \<in> fst ` set get_feature_ranges \<Longrightarrow> f \<notin> set boolean_fields"
  unfolding ranged_fields by (auto simp: boolean_fields_def)

lemma validate_update:
  assumes "validate_input_data so (PyDict d) = Inr (True, '''')"
    and "(f, lo, hi) \<in> set get_feature_ranges"
  shows "validate_input_data so (PyDict (d(f \<mapsto> v))) =
     (case num_value v of
        None \<Rightarrow> Inr (False, f @ '' must be a number'')
      | Some x \<Rightarrow>
          if float_lt x (number_value lo) \<or> float_lt (number_value hi) x
          then Inr (False, f @ '' must be between '' @ str_number lo @ '' and '' @ str_number hi)
          else Inr (True, ''''))"
proof -
  from assms(1) have dom: "required_fields \<subseteq> dom d"
    and ok: "list_all (field_ok d) get_feature_ranges"
    and sex: "d ''Sex'' = Some (PyStr ''M'') \<or> d ''Sex'' = Some (PyStr ''F'')"
    and bools: "find (rejected d) boolean_fields = None"
    by (simp_all add: validate_True_iff)
  from assms(2) have f: "f \<in> fst ` set get_feature_ranges"
    by (auto simp: rev_image_eqI)
  with ranged_not_sex have "f \<noteq> ''Sex''" by blast
  then have sex': "(d(f \<mapsto> v)) ''Sex'' = d ''Sex''" by simp
  from f have "f \<notin> set boolean_fields" by (rule ranged_not_boolean)
  then have "find (rejected (d(f \<mapsto> v))) boolean_fields = find (rejected d) boolean_fields"
    by (intro find_cong) (auto simp: rejected_def)
  with bools have bools': "find (rejected (d(f \<mapsto> v))) boolean_fields = None" by simp
  from dom have dom': "required_fields \<subseteq> dom (d(f \<mapsto> v))" by auto
  have loop: "range_loop (d(f \<mapsto> v)) get_feature_ranges =
     (case num_value v of
        None \<Rightarrow> Inr (Some (False, f @ '' must be a number''))
      | Some x \<Rightarrow>
          if float_lt x (number_value lo) \<or> float_lt (number_value hi) x
          then Inr (Some (False, f @ '' must be between '' @ str_number lo @ '' and '' @ str_number hi))
          else Inr None)"
    by (rule range_loop_update [OF ok ranges_distinct assms(2)]) simp_all
  from sex show ?thesis
  proof
    assume "d ''Sex'' = Some (PyStr ''M'')"
    with sex' show ?thesis
      by (simp add: validate_dict [OF dom'] loop bools' split: option.splits)
  next
    assume "d ''Sex'' = Some (PyStr ''F'')"
    with sex' show ?thesis
      by (simp add: validate_dict [OF dom'] loop bools' split: option.splits)
  qed
qed

lemma table_bounds:
  "(f, lo, hi) \<in> set get_feature_ranges \<Longrightarrow>
     \<not> float_lt (number_value hi) (number_value lo)
     \<and> \<not> float_lt (number_value lo) (number_value lo)
     \<and> \<not> float_lt (number_value hi) (number_value hi)
     \<and> float_lt (number_value (number_plus lo (- 1))) (number_value lo)
     \<and> float_lt (number_value hi) (number_value (number_plus hi 1))"
  by (auto simp: get_feature_ranges_def double_0_3_def)

lemma str_float_whole:
  "\<bar>i\<bar> < 10 ^ 16 \<Longrightarrow> str_float (Finite (of_int i)) = str_int i @ ''.0''"
proof -
  assume "\<bar>i\<bar> < 10 ^ 16"
  then have "\<bar>rat_of_int i\<bar> < rat_of_int (10 ^ 16)"
    unfolding of_int_abs [symmetric] by (simp only: of_int_less_iff)
  then show ?thesis by (simp add: str_float_def)
qed

lemma str_float_half: "str_float (Finite (1 / 2)) = ''0.5''"
proof -
  have "\<lfloor>1 / 2 :: rat\<rfloor> = 0" by (simp add: floor_eq_iff)
  then show ?thesis by (simp add: str_float_def)
qed

lemma str_float_0_3: "str_float (Finite double_0_3) = ''0.3''"
proof -
  have "\<lfloor>double_0_3\<rfloor> = 0" by (simp add: floor_eq_iff double_0_3_def)
  moreover have "double_0_3 \<noteq> 0" "double_0_3 \<noteq> 1 / 2" by (simp_all add: double_0_3_def)
  ultimately show ?thesis by (simp add: str_float_def)
qed

text \<open>The ten messages of the range loop.\<close>

lemma str_bounds:
  "map (\<lambda>(f, lo, hi). f @ '' must be between '' @ str_number lo @ '' and '' @ str_number hi)
     get_feature_ranges =
   [''Age must be between 18 and 90'',
    ''Albumin must be between 2.0 and 6.0'',
    ''Bilirubin must be between 0.3 and 10.0'',
    ''ALT must be between 7 and 2000'',
    ''AST must be between 10 and 2000'',
    ''ALP must be between 44 and 500'',
    ''INR must be between 0.5 and 5.0'',
    ''Platelets must be between 20 and 500'',
    ''Sodium must be between 125 and 145'',
    ''Creatinine must be between 0.5 and 4.0'']"
proof -
  have whole: "str_float (Finite 2) = ''2.0''" "str_float (Finite 6) = ''6.0''"
    "str_float (Finite 10) = ''10.0''" "str_float (Finite 5) = ''5.0''"
    "str_float (Finite 4) = ''4.0''"
    using str_float_whole [of 2] str_float_whole [of 6] str_float_whole [of 10]
      str_float_whole [of 5] str_float_whole [of 4]
    by (simp_all add: str_int_def str_nat.simps digit_char_def)
  show ?thesis
    by (simp add: get_feature_ranges_def whole str_float_half str_float_0_3
          str_int_def str_nat.simps digit_char_def)
qed

text \<open>
  Claim C2. For every valid record and every entry (field, minimum, maximum) of the range
  table, which holds the ten ranged fields: the record with the field set to the minimum,
  or to the maximum, is still accepted; the record with the field set one unit below the
  minimum, or one unit above the maximum, or to any other number below the minimum or
  above the maximum, makes \<^verbatim>\<open>validate_input_data\<close> return \<^verbatim>\<open>False\<close> with the message
  naming the field and both bounds.
\<close>

theorem range_boundaries:
  assumes "validate_input_data so (PyDict d) = Inr (True, '''')"
    and "(f, lo, hi) \<in> set get_feature_ranges"
  shows "validate_input_data so (PyDict (d(f \<mapsto> PyNum lo))) = Inr (True, '''')
       \<and> validate_input_data so (PyDict (d(f \<mapsto> PyNum hi))) = Inr (True, '''')
       \<and> validate_input_data so (PyDict (d(f \<mapsto> PyNum (number_plus lo (- 1)))))
           = Inr (False, f @ '' must be between '' @ str_number lo @ '' and '' @ str_number hi)
       \<and> validate_input_data so (PyDict (d(f \<mapsto> PyNum (number_plus hi 1))))
           = Inr (False, f @ '' must be between '' @ str_number lo @ '' and '' @ str_number hi)
       \<and> (\<forall>v x. num_value v = Some x
                  \<and> (float_lt x (number_value lo) \<or> float_lt (number_value hi) x) \<longrightarrow>
             validate_input_data so (PyDict (d(f \<mapsto> v)))
               = Inr (False, f @ '' must be between '' @ str_number lo @ '' and '' @ str_number hi))"
proof -
  note bounds = table_bounds [OF assms(2)]
  note upd = validate_update [OF assms]
  have "validate_input_data so (PyDict (d(f \<mapsto> PyNum lo))) = Inr (True, '''')"
    using bounds by (simp add: upd)
  moreover have "validate_input_data so (PyDict (d(f \<mapsto> PyNum hi))) = Inr (True, '''')"
    using bounds by (simp add: upd)
  moreover have "validate_input_data so (PyDict (d(f \<mapsto> PyNum (number_plus lo (- 1)))))
           = Inr (False, f @ '' must be between '' @ str_number lo @ '' and '' @ str_number hi)"
    using bounds by (simp add: upd)
  moreover have "validate_input_data so (PyDict (d(f \<mapsto> PyNum (number_plus hi 1))))
           = Inr (False, f @ '' must be between '' @ str_number lo @ '' and '' @ str_number hi)"
    using bounds by (simp add: upd)
  moreover have "validate_input_data so (PyDict (d(f \<mapsto> v)))
               = Inr (False, f @ '' must be between '' @ str_number lo @ '' and '' @ str_number hi)"
    if "num_value v = Some x" "float_lt x (number_value lo) \<or> float_lt (number_value hi) x" for v x
    using that by (simp add: upd)
  ultimately show ?thesis by blast
qed

text \<open>
  A record valid except for Age = 17 fails with \<^verbatim>\<open>Age must be between 18 and 90\<close>; so
  does Age = 91, while 18 and 90 pass.
\<close>

theorem range_boundaries_witness:
  "validate_input_data literal_order (PyDict (sample_record(''Age'' \<mapsto> PyNum (Integer 18)))) = Inr (True, '''')
   \<and> validate_input_data literal_order (PyDict (sample_record(''Age'' \<mapsto> PyNum (Integer 90)))) = Inr (True, '''')
   \<and> validate_input_data literal_order (PyDict (sample_record(''Age'' \<mapsto> PyNum (Integer 17))))
       = Inr (False, ''Age must be between 18 and 90'')
   \<and> validate_input_data literal_order (PyDict (sample_record(''Age'' \<mapsto> PyNum (Integer 91))))
       = Inr (False, ''Age must be between 18 and 90'')"
proof -
  have age: "(''Age'', Integer 18, Integer 90) \<in> set get_feature_ranges"
    by (simp add: get_feature_ranges_def)
  have strs: "str_int 18 = ''18''" "str_int 90 = ''90''"
    by (simp_all add: str_int_def str_nat.simps digit_char_def)
  have plus: "number_plus (Integer 18) (- 1) = Integer 17" "number_plus (Integer 90) 1 = Integer 91"
    by simp_all
  note at_age = range_boundaries [OF sample_valid age, of literal_order,
      unfolded plus str_number.simps strs]
  then show ?thesis by simp
qed

section \<open>Additional keys\<close>

lemma float_le_not_lt: "float_le x y \<Longrightarrow> \<not> float_lt y x"
  by (cases x; cases y) (auto simp: float_le_def)

lemma required_split:
  "required_fields = fst ` set get_feature_ranges \<union> {''Sex''} \<union> set boolean_fields"
  unfolding ranged_fields by (auto simp: required_fields_def boolean_fields_def)

lemma valid_values_accepts:
  assumes "valid_values d"
  shows "validate_input_data so (PyDict d) = Inr (True, '''')"
proof -
  from assms have r: "\<forall>e\<in>set get_feature_ranges.
      case e of (f, lo, hi) \<Rightarrow> (case d f of None \<Rightarrow> False | Some v \<Rightarrow> in_closed_range v lo hi)"
    and s: "d ''Sex'' = Some (PyStr ''M'') \<or> d ''Sex'' = Some (PyStr ''F'')"
    and b: "\<forall>f\<in>set boolean_fields. d f = Some (PyNum (Integer 0)) \<or> d f = Some (PyNum (Integer 1))"
    by (simp_all add: valid_values_def list_all_iff)
  have ok: "list_all (field_ok d) get_feature_ranges"
    unfolding list_all_iff
  proof
    fix e assume e: "e \<in> set get_feature_ranges"
    obtain f lo hi where split: "e = (f, lo, hi)" by (cases e)
    with r e have "case d f of None \<Rightarrow> False | Some v \<Rightarrow> in_closed_range v lo hi"
      by fastforce
    then obtain v where v: "d f = Some v" "in_closed_range v lo hi"
      by (cases "d f") auto
    then obtain x where "num_value v = Some x"
      "float_le (number_value lo) x" "float_le x (number_value hi)"
      by (cases "num_value v") (auto simp: in_closed_range_def)
    with v split show "field_ok d e"
      by (simp add: field_ok_def float_le_not_lt)
  qed
  have "f \<in> dom d" if "f \<in> fst ` set get_feature_ranges" for f
    using that r by (fastforce split: option.splits)
  moreover have "f \<in> dom d" if "f \<in> set boolean_fields" for f
    using that b by auto
  moreover have "''Sex'' \<in> dom d" using s by auto
  ultimately have dom: "required_fields \<subseteq> dom d"
    unfolding required_split by blast
  have "\<not> rejected d f" if "f \<in> set boolean_fields" for f
    using that b by (auto simp: rejected_def accepted_booleans_def)
  then have "find (rejected d) boolean_fields = None"
    by (simp add: find_None_iff)
  with ok dom s show ?thesis
    by (simp only: validate_True_iff simp_thms)
qed

lemma valid_values_extra:
  assumes "valid_values d"
  shows "valid_values (extra ++ d)"
proof -
  have keep: "(extra ++ d) k = d k" if "d k \<noteq> None" for k
    using that by (auto simp: map_add_def split: option.splits)
  from assms show ?thesis
    unfolding valid_values_def list_all_iff
    by (auto simp: keep split: option.splits)
qed

text \<open>
  Claim C10. For every record whose fifteen required fields hold valid values, and every
  set of additional keys with any values, \<^verbatim>\<open>validate_input_data\<close> returns \<^verbatim>\<open>True\<close> with
  the empty message.
\<close>

theorem extra_keys_ignored:
  "valid_values d \<Longrightarrow> validate_input_data so (PyDict (extra ++ d)) = Inr (True, '''')"
  by (intro valid_values_accepts valid_values_extra)

lemma sample_valid_values: "valid_values sample_record"
  by (simp add: valid_values_def get_feature_ranges_def boolean_fields_def sample_record_def
        in_closed_range_def float_le_def double_0_3_def)

text \<open>The sample record with two more keys.\<close>

theorem extra_keys_ignored_witness:
  "valid_values sample_record
   \<and> validate_input_data literal_order
       (PyDict ([''Weight'' \<mapsto> PyStr ''unknown'', ''Visits'' \<mapsto> PyList [PyNone]] ++ sample_record))
     = Inr (True, '''')"
  using extra_keys_ignored [OF sample_valid_values, of literal_order
      "[''Weight'' \<mapsto> PyStr ''unknown'', ''Visits'' \<mapsto> PyList [PyNone]]"]
    sample_valid_values
  by (simp only: simp_thms)

section \<open>Facts about the loader\<close>

lemma load_model_cached:
  "cache w = Some r \<Longrightarrow> load_model p file w = (r, emit Call_load_model w)"
  by (simp add: load_model_def cache_resource_def emit_def)

lemma load_model_absent:
  "cache w = None \<Longrightarrow>
   load_model p Absent w =
     (None, \<lparr>cache = Some None,
             trace = trace w @ [Call_load_model, Path_exists,
               St_error (''Error loading model: '' @ ''Model file not found at '' @ p)]\<rparr>)"
  by (simp add: load_model_def cache_resource_def emit_def load_model_body_def load_model_try_def)

lemma load_model_corrupt:
  "cache w = None \<Longrightarrow>
   load_model p (Present (Inl e)) w =
     (None, \<lparr>cache = Some None,
             trace = trace w @ [Call_load_model, Path_exists, Joblib_load,
               St_error (''Error loading model: '' @ exn_str e)]\<rparr>)"
  by (simp add: load_model_def cache_resource_def emit_def load_model_body_def load_model_try_def)

lemma load_model_good:
  "cache w = None \<Longrightarrow>
   load_model p (Present (Inr m)) w =
     (Some m, \<lparr>cache = Some (Some m),
               trace = trace w @ [Call_load_model, Path_exists, Joblib_load]\<rparr>)"
  by (simp add: load_model_def cache_resource_def emit_def load_model_body_def load_model_try_def)

lemma validate_True_dict:
  assumes "validate_input_data so x = Inr (True, m)"
  shows "m = [] \<and> (\<exists>d. x = PyDict d)"
proof (cases "\<exists>d. x = PyDict d")
  case True
  with assms show ?thesis by (auto simp: validate_True_iff)
next
  case False
  then have "\<And>d. x \<noteq> PyDict d" by blast
  from validate_not_dict [OF this, of so] assms show ?thesis by simp
qed

section \<open>Failing fast\<close>

text \<open>
  Claim C4. For every input record, model file and state of the process: when
  \<^verbatim>\<open>validate_input_data\<close> returns \<^verbatim>\<open>False\<close> with a message,
  \<^verbatim>\<open>predict_liver_disease\<close> raises \<^verbatim>\<open>ValueError\<close> carrying that message and leaves the
  state of the process as it was, so that neither \<^verbatim>\<open>load_model\<close> nor the classifier has
  been called; and whenever a call changes the state at all (the loader was invoked),
  validation had succeeded.
\<close>

theorem invalid_input_fails_fast:
  "(validate_input_data so x = Inr (False, msg) \<longrightarrow>
      predict_liver_disease so p file x w = (Inl (ValueError msg), w))
   \<and> (snd (predict_liver_disease so p file x w) \<noteq> w \<longrightarrow>
      validate_input_data so x = Inr (True, ''''))"
proof -
  obtain ok m where r: "validate_input_data so x = Inr (ok, m)"
    unfolding validate_input_data_def by (cases "validate_try so x") auto
  show ?thesis
  proof (cases ok)
    case True
    with r validate_True_dict [of so x m] show ?thesis by simp
  next
    case False
    with r show ?thesis by (simp add: predict_liver_disease_def)
  qed
qed

lemma sample_age_17:
  "validate_input_data so (PyDict (sample_record(''Age'' \<mapsto> PyNum (Integer 17))))
     = Inr (False, ''Age must be between 18 and 90'')"
proof -
  have age: "(''Age'', Integer 18, Integer 90) \<in> set get_feature_ranges"
    by (simp add: get_feature_ranges_def)
  show ?thesis
    by (simp add: validate_update [OF sample_valid age] str_int_def str_nat.simps digit_char_def)
qed

text \<open>A record with Age = 17, in a fresh process with a good model file.\<close>

theorem invalid_input_fails_fast_witness:
  "predict_liver_disease literal_order ''liver_disease_staging_model.pkl''
      (Present (Inr stub_classifier)) (PyDict (sample_record(''Age'' \<mapsto> PyNum (Integer 17)))) fresh
     = (Inl (ValueError ''Age must be between 18 and 90''), fresh)"
  using invalid_input_fails_fast [of literal_order
      "PyDict (sample_record(''Age'' \<mapsto> PyNum (Integer 17)))" "''Age must be between 18 and 90''"
      "''liver_disease_staging_model.pkl''" "Present (Inr stub_classifier)" fresh]
  by (simp only: sample_age_17 simp_thms)

section \<open>A failed load\<close>

text \<open>
  Claim C5. When the model file is absent or \<^verbatim>\<open>joblib.load\<close> raises, and no classifier is
  held by the cache, \<^verbatim>\<open>load_model\<close> returns \<^verbatim>\<open>None\<close>, never a classifier; when the
  load is attempted (the cache is empty) the last thing it does is to show the error,
  \<^verbatim>\<open>Error loading model:\<close> with the reason; and \<^verbatim>\<open>predict_liver_disease\<close>, on a valid
  record, raises \<^verbatim>\<open>RuntimeError('Failed to load model')\<close> at once, nothing being called
  after the loader.
\<close>

theorem load_failure_reported:
  assumes "load_fails file" and "no_model_cached w"
  shows "fst (load_model p file w) = None
       \<and> (cache w = None \<longrightarrow>
            last (trace (snd (load_model p file w)))
              = St_error (''Error loading model: '' @
                  (case file of
                     Absent \<Rightarrow> ''Model file not found at '' @ p
                   | Present loaded \<Rightarrow> (case loaded of Inl e \<Rightarrow> exn_str e | Inr model \<Rightarrow> []))))
       \<and> (validate_input_data so x = Inr (True, '''') \<longrightarrow>
            predict_liver_disease so p file x w
              = (Inl (RuntimeError ''Failed to load model''), snd (load_model p file w)))"
proof -
  have none: "fst (load_model p file w) = None"
  proof (cases "cache w")
    case None
    with assms(1) show ?thesis
      by (cases "file" rule: load_fails.cases)
         (simp_all add: load_model_absent load_model_corrupt)
  next
    case (Some r)
    with assms(2) have "r = None" by (cases r) auto
    with Some show ?thesis by (simp add: load_model_cached)
  qed
  have shown: "last (trace (snd (load_model p file w)))
              = St_error (''Error loading model: '' @
                  (case file of
                     Absent \<Rightarrow> ''Model file not found at '' @ p
                   | Present loaded \<Rightarrow> (case loaded of Inl e \<Rightarrow> exn_str e | Inr model \<Rightarrow> [])))"
    if "cache w = None"
    using that assms(1)
    by (cases "file" rule: load_fails.cases)
       (simp_all add: load_model_absent load_model_corrupt)
  have "predict_liver_disease so p file x w
              = (Inl (RuntimeError ''Failed to load model''), snd (load_model p file w))"
    if "validate_input_data so x = Inr (True, '''')"
    using that none
    by (cases "load_model p file w") (simp add: predict_liver_disease_def)
  with none shown show ?thesis by blast
qed

text \<open>The file is absent in a fresh process.\<close>

theorem load_failure_reported_witness:
  "load_model ''liver_disease_staging_model.pkl'' (Absent :: string model_file) fresh
     = (None, \<lparr>cache = Some None,
               trace = [Call_load_model, Path_exists,
                 St_error ''Error loading model: Model file not found at liver_disease_staging_model.pkl'']\<rparr>)
   \<and> fst (predict_liver_disease literal_order ''liver_disease_staging_model.pkl''
        (Absent :: string model_file) (PyDict sample_record) fresh)
     = Inl (RuntimeError ''Failed to load model'')"
proof -
  have f: "load_fails (Absent :: string model_file)" by simp
  have c: "no_model_cached (fresh :: string world)" by (simp add: fresh_def)
  have l: "load_model ''liver_disease_staging_model.pkl'' (Absent :: string model_file) fresh
     = (None, \<lparr>cache = Some None,
               trace = [Call_load_model, Path_exists,
                 St_error ''Error loading model: Model file not found at liver_disease_staging_model.pkl'']\<rparr>)"
    by (simp add: load_model_absent fresh_def)
  from load_failure_reported [OF f c, of "''liver_disease_staging_model.pkl''" literal_order
      "PyDict sample_record"]
  have "fst (predict_liver_disease literal_order ''liver_disease_staging_model.pkl''
        (Absent :: string model_file) (PyDict sample_record) fresh)
     = Inl (RuntimeError ''Failed to load model'')"
    by (simp add: sample_valid)
  with l show ?thesis by simp
qed

section \<open>The result of a prediction\<close>

lemma prob_dict_of_snoc:
  "prob_dict_of (pairs @ [(k, v)]) = (prob_dict_of pairs)(k \<mapsto> v)"
  by (simp add: prob_dict_of_def)

lemma prob_dict_of_dom: "dom (prob_dict_of pairs) = fst ` set pairs"
proof (induction pairs rule: rev_induct)
  case Nil
  show ?case by (simp add: prob_dict_of_def)
next
  case (snoc e pairs)
  obtain k v where e: "e = (k, v)" by (cases e)
  have "dom (prob_dict_of (pairs @ [e])) = insert k (dom (prob_dict_of pairs))"
    unfolding e prob_dict_of_snoc by simp
  also have "\<dots> = insert k (fst ` set pairs)"
    by (simp only: snoc.IH)
  also have "\<dots> = fst ` set (pairs @ [e])"
    using e by simp
  finally show ?case .
qed

lemma prob_dict_of_distinct:
  "distinct (map fst pairs) \<Longrightarrow> (k, v) \<in> set pairs \<Longrightarrow> prob_dict_of pairs k = Some v"
proof (induction pairs rule: rev_induct)
  case Nil
  then show ?case by simp
next
  case (snoc e pairs)
  obtain k' v' where e: "e = (k', v')" by (cases e)
  show ?case
  proof (cases "(k, v) \<in> set pairs")
    case True
    with snoc.prems e have "k \<noteq> k'" by (auto simp: rev_image_eqI)
    with snoc True e show ?thesis by (simp add: prob_dict_of_snoc)
  next
    case False
    with snoc.prems e show ?thesis by (simp add: prob_dict_of_snoc)
  qed
qed

text \<open>
  Claim C6. For every valid record and every loaded classifier whose \<^verbatim>\<open>predict\<close> and
  \<^verbatim>\<open>predict_proba\<close> return a row for the record, \<^verbatim>\<open>predict_liver_disease\<close> returns the
  first element of what \<^verbatim>\<open>predict\<close> gave as the stage, and the dict that pairs
  \<^verbatim>\<open>classes_\<close> with the row of probabilities positionally: its keys are the labels that
  have a probability, and (the labels being distinct) the label at position \<open>i\<close> is
  mapped to the probability at position \<open>i\<close>.
\<close>

theorem prediction_pairs_labels:
  assumes "validate_input_data so x = Inr (True, '''')"
    and "fst (load_model p file w) = Some m"
    and "predict m [x] = Inr (stage # stages)"
    and "predict_proba m [x] = Inr (probs # rows)"
  shows "fst (predict_liver_disease so p file x w)
           = Inr (stage, prob_dict_of (zip (classes m) probs))
       \<and> dom (prob_dict_of (zip (classes m) probs)) = set (take (length probs) (classes m))
       \<and> (distinct (classes m) \<longrightarrow>
            (\<forall>i. i < length (classes m) \<and> i < length probs \<longrightarrow>
               prob_dict_of (zip (classes m) probs) (classes m ! i) = Some (probs ! i)))"
proof -
  obtain w1 where l: "load_model p file w = (Some m, w1)"
    using assms(2) by (cases "load_model p file w") auto
  have res: "fst (predict_liver_disease so p file x w)
           = Inr (stage, prob_dict_of (zip (classes m) probs))"
    by (simp add: predict_liver_disease_def assms(1) l predict_try_def assms(3,4) Let_def)
  have d: "dom (prob_dict_of (zip (classes m) probs)) = set (take (length probs) (classes m))"
    by (cases "length (classes m) \<le> length probs")
       (simp_all add: prob_dict_of_dom map_fst_zip_take min_def flip: set_map)
  have "prob_dict_of (zip (classes m) probs) (classes m ! i) = Some (probs ! i)"
    if "distinct (classes m)" "i < length (classes m)" "i < length probs" for i
  proof (rule prob_dict_of_distinct)
    from that(1) show "distinct (map fst (zip (classes m) probs))"
      by (simp add: map_fst_zip_take)
    from that(2,3) show "(classes m ! i, probs ! i) \<in> set (zip (classes m) probs)"
      by (auto simp: set_zip)
  qed
  with res d show ?thesis by blast
qed

text \<open>
  The stub classifier with classes Stage1, Stage2, Stage3 and probabilities 0.2, 0.3, 0.5
  gives the mapping of Stage1 to 0.2, Stage2 to 0.3 and Stage3 to 0.5.
\<close>

theorem prediction_pairs_labels_witness:
  "fst (predict_liver_disease literal_order ''liver_disease_staging_model.pkl''
        (Present (Inr stub_classifier)) (PyDict sample_record) fresh)
     = Inr (''Stage3'',
            [''Stage1'' \<mapsto> Finite double_0_2, ''Stage2'' \<mapsto> Finite double_0_3,
             ''Stage3'' \<mapsto> Finite (1 / 2)])"
proof -
  have l: "fst (load_model ''liver_disease_staging_model.pkl'' (Present (Inr stub_classifier)) fresh)
             = Some stub_classifier"
    by (simp add: load_model_good fresh_def)
  have p: "predict stub_classifier [PyDict sample_record] = Inr (''Stage3'' # [])"
    by (simp add: stub_classifier_def)
  have q: "predict_proba stub_classifier [PyDict sample_record]
             = Inr ([Finite double_0_2, Finite double_0_3, Finite (1 / 2)] # [])"
    by (simp add: stub_classifier_def)
  have z: "prob_dict_of (zip (classes stub_classifier) [Finite double_0_2, Finite double_0_3, Finite (1 / 2)])
             = [''Stage1'' \<mapsto> Finite double_0_2, ''Stage2'' \<mapsto> Finite double_0_3,
                ''Stage3'' \<mapsto> Finite (1 / 2)]"
    by (simp add: stub_classifier_def prob_dict_of_def)
  from prediction_pairs_labels [OF sample_valid l p q, of literal_order]
  show ?thesis by (simp only: z)
qed

section \<open>Loading once\<close>

lemma load_many_cached:
  "cache w = Some r \<Longrightarrow>
   load_many p files w =
     (replicate (length files) r,
      w\<lparr>trace := trace w @ replicate (length files) Call_load_model\<rparr>)"
proof (induction files arbitrary: w)
  case Nil
  then show ?case by simp
next
  case (Cons f files)
  have "cache (emit Call_load_model w) = Some r"
    using Cons.prems by (simp add: emit_def)
  from Cons.IH [OF this] Cons.prems show ?case
    by (simp add: load_model_cached emit_def replicate_append_same)
qed

lemma load_model_fresh_trace:
  assumes "cache w = None" and "load_model p f w = (r, w1)"
  shows "cache w1 = Some r
       \<and> count_list (trace w1) Joblib_load \<le> count_list (trace w) Joblib_load + 1
       \<and> count_list (trace w1) Path_exists = count_list (trace w) Path_exists + 1
       \<and> count_list (trace w1) Call_load_model = count_list (trace w) Call_load_model + 1"
proof (cases f)
  case Absent
  with assms show ?thesis by (auto simp: load_model_absent)
next
  case (Present loaded)
  with assms show ?thesis
    by (cases loaded) (auto simp: load_model_corrupt load_model_good)
qed

lemma count_list_replicate_other: "x \<noteq> y \<Longrightarrow> count_list (replicate n x) y = 0"
  by (induction n) auto

lemma count_list_replicate_same: "count_list (replicate n x) x = n"
  by (induction n) auto

text \<open>
  Claim C9. In one process, starting with an empty cache, any number of calls of
  \<^verbatim>\<open>load_model\<close>, whatever the state of the model file at each call, run
  \<^verbatim>\<open>joblib.load\<close> at most once and look for the file at most once, and every call
  returns what the first call returned.
\<close>

theorem deserialized_at_most_once:
  assumes "load_many p files fresh = (rs, w)"
  shows "count_list (trace w) Joblib_load \<le> 1
       \<and> count_list (trace w) Path_exists \<le> 1
       \<and> count_list (trace w) Call_load_model = length files
       \<and> length rs = length files
       \<and> (\<forall>r\<in>set rs. r = hd rs)"
proof (cases files)
  case Nil
  with assms show ?thesis by (auto simp: fresh_def)
next
  case (Cons f rest)
  obtain r w1 where first: "load_model p f fresh = (r, w1)"
    by (cases "load_model p f fresh")
  have "cache (fresh :: 'a world) = None" by (simp add: fresh_def)
  from load_model_fresh_trace [OF this first]
  have c: "cache w1 = Some r"
    and j: "count_list (trace w1) Joblib_load \<le> 1"
    and e: "count_list (trace w1) Path_exists = 1"
    and l: "count_list (trace w1) Call_load_model = 1"
    by (simp_all add: fresh_def)
  from assms Cons first load_many_cached [OF c, of p rest]
  have rs: "rs = r # replicate (length rest) r"
    and w: "w = w1\<lparr>trace := trace w1 @ replicate (length rest) Call_load_model\<rparr>"
    by simp_all
  from rs w j e l Cons show ?thesis
    by (simp add: count_list_replicate_other count_list_replicate_same)
qed

text \<open>Three calls, the file being removed before the second and restored before the third.\<close>

theorem deserialized_at_most_once_witness:
  "load_many ''liver_disease_staging_model.pkl''
      [Present (Inr stub_classifier), Absent, Present (Inr stub_classifier)] fresh
     = ([Some stub_classifier, Some stub_classifier, Some stub_classifier],
        \<lparr>cache = Some (Some stub_classifier),
         trace = [Call_load_model, Path_exists, Joblib_load, Call_load_model, Call_load_model]\<rparr>)
   \<and> count_list [Call_load_model, Path_exists, Joblib_load, Call_load_model, Call_load_model] Joblib_load \<le> 1"
proof -
  have run: "load_many ''liver_disease_staging_model.pkl''
      [Present (Inr stub_classifier), Absent, Present (Inr stub_classifier)] fresh
     = ([Some stub_classifier, Some stub_classifier, Some stub_classifier],
        \<lparr>cache = Some (Some stub_classifier),
         trace = [Call_load_model, Path_exists, Joblib_load, Call_load_model, Call_load_model]\<rparr>)"
    by (simp add: load_model_good load_model_cached fresh_def emit_def)
  from deserialized_at_most_once [OF run] run show ?thesis
    by (simp only: world.simps simp_thms)
qed

end
